theory Spec2Isabelle
  imports Main
begin

section \<open>Polling loops of the SageMaker example notebooks\<close>

text \<open>
  Two loops are embedded here:
  \<^item> \<^verbatim>\<open>wait_till_delete(callback, check_time=5, timeout=100)\<close> of
    \<^verbatim>\<open>sm_pipeline_with_amazon_forecast.ipynb\<close>, and
  \<^item> the training-status loop of \<^verbatim>\<open>xgboost_parquet_input_training.ipynb\<close>.

  Python exceptions are values of \<open>py_exn\<close>; a computation that may raise returns
  \<open>py_exn + 'a\<close> with \<open>Inl\<close> the raised exception. Both loops may run forever, so they
  are \<^theory_text>\<open>partial_function (option)\<close>: \<open>None\<close> is "does not return".
\<close>

subsection \<open>Exceptions, probes and the simulated world\<close>

text \<open>
  \<open>ClientError code\<close> is a \<^verbatim>\<open>botocore.exceptions.ClientError\<close> (or a subclass, which the
  \<^verbatim>\<open>except\<close> clause catches as well) whose \<^verbatim>\<open>e.response["Error"]["Code"]\<close> is \<open>code\<close>;
  botocore's response parsers always fill that key. \<^verbatim>\<open>ValueError\<close>, \<^verbatim>\<open>OverflowError\<close> and
  \<^verbatim>\<open>OSError\<close> are what \<^verbatim>\<open>time.sleep\<close> raises. \<open>OtherException cls\<close> is an exception of
  any other class \<open>cls\<close> outside the \<^verbatim>\<open>ClientError\<close> hierarchy.
\<close>

datatype py_exn =
    ClientError string
  | TimeoutError string
  | ValueError string
  | OverflowError string
  | OSError string
  | OtherException string

text \<open>
  One invocation of a remote call: the simulated seconds it \<open>took\<close> and its \<open>outcome\<close>
  (a raised exception or a returned value). A probe is scripted: \<open>callback i\<close> is what
  the \<open>i\<close>-th invocation (counted from 0) does.
\<close>

datatype 'v invocation = Invocation (took: int) (outcome: "py_exn + 'v")

type_synonym 'v probe = "nat \<Rightarrow> 'v invocation"

text \<open>
  Everything outside the function's local variables: how many remote calls have been
  made, the arguments of every \<^verbatim>\<open>time.sleep\<close> in order, the lines printed, and a
  simulated wall clock (seconds).
\<close>

record world =
  calls :: nat
  sleeps :: "int list"
  stdout :: "string list"
  clock :: int

definition invoke :: "'v probe \<Rightarrow> nat \<Rightarrow> world \<Rightarrow> (py_exn + 'v) \<times> world" where
  "invoke callback i w =
     (outcome (callback i),
      w\<lparr>calls := calls w + 1, clock := clock w + took (callback i)\<rparr>)"

text \<open>
  \<^verbatim>\<open>time.sleep(t)\<close> with an integer \<open>t\<close>. CPython first converts \<open>t\<close> seconds to a signed
  64-bit number of nanoseconds and raises \<^verbatim>\<open>OverflowError\<close> when that does not fit, which
  is when \<open>t\<close> is outside \<open>-9223372036 .. 9223372036\<close>. It then raises \<^verbatim>\<open>ValueError\<close> on a
  negative \<open>t\<close>. What happens to a long sleep after that is up to the platform: on
  Linux the call fails with \<^verbatim>\<open>OSError\<close> when the deadline, the monotonic clock plus \<open>t\<close>,
  leaves the 64-bit range, so the longest sleep accepted depends on the uptime of the
  host; on Windows sleeps of more than 4294967 seconds raise \<^verbatim>\<open>OverflowError\<close>. The
  platform is a parameter: \<open>os t\<close> is the exception its sleep primitive raises for a
  duration \<open>t\<close>, or \<open>None\<close> when it sleeps. Every platform sleeps for durations up to
  \<open>1000000\<close> seconds, so \<open>os\<close> is asked above that only.
\<close>

type_synonym platform = "int \<Rightarrow> py_exn option"

definition sleep_error :: "platform \<Rightarrow> int \<Rightarrow> py_exn option" where
  "sleep_error os t =
     (if t < - 9223372036 \<or> 9223372036 < t
      then Some (OverflowError ''timestamp too large to convert to C _PyTime_t'')
      else if t < 0 then Some (ValueError ''sleep length must be non-negative'')
      else if 1000000 < t then os t
      else None)"

definition sleep :: "platform \<Rightarrow> int \<Rightarrow> world \<Rightarrow> py_exn + world" where
  "sleep os t w =
     (case sleep_error os t of
        Some e \<Rightarrow> Inl e
      | None \<Rightarrow> Inr (w\<lparr>sleeps := sleeps w @ [t], clock := clock w + t\<rparr>))"

definition print :: "string \<Rightarrow> world \<Rightarrow> world" where
  "print s w = w\<lparr>stdout := stdout w @ [s]\<rparr>"

subsection \<open>\<^verbatim>\<open>wait_till_delete\<close>\<close>

text \<open>
  \<^verbatim>\<open>
  def wait_till_delete(callback, check_time=5, timeout=100):
      elapsed_time = 0
      while timeout is None or elapsed_time < timeout:
          try:
              out = callback()
          except botocore.exceptions.ClientError as e:
              # When given the resource not found exception, deletion has occured
              if e.response["Error"]["Code"] == "ResourceNotFoundException":
                  print("Successful delete")
                  return
              else:
                  raise
          time.sleep(check_time)  # units of seconds
          elapsed_time += check_time

      raise TimeoutError("Forecast resource deletion timed-out.")
  \<close>
\<close>

text \<open>The loop condition \<^verbatim>\<open>timeout is None or elapsed_time < timeout\<close>.\<close>

definition loop_condition :: "int option \<Rightarrow> int \<Rightarrow> bool" where
  "loop_condition timeout elapsed_time =
     (case timeout of None \<Rightarrow> True | Some t \<Rightarrow> elapsed_time < t)"

text \<open>
  One pass through the loop body, from the state at the top of iteration \<open>n\<close>
  (\<open>n\<close> iterations completed, the local \<open>elapsed_time\<close>, the world): it either leaves
  the function (\<open>Leave\<close>, by \<^verbatim>\<open>return\<close> or by an exception) or reaches the top of the
  loop again (\<open>Again\<close>).
\<close>

datatype step = Leave "py_exn + unit" world | Again nat int world

definition loop_body :: "platform \<Rightarrow> 'v probe \<Rightarrow> int \<Rightarrow> nat \<Rightarrow> int \<Rightarrow> world \<Rightarrow> step" where
  "loop_body os callback check_time n elapsed_time w =
     (case invoke callback n w of
        (Inl e, w1) \<Rightarrow>
          (case e of
             ClientError code \<Rightarrow>
               if code = ''ResourceNotFoundException''
               then Leave (Inr ()) (print ''Successful delete'' w1)
               else Leave (Inl e) w1
           | _ \<Rightarrow> Leave (Inl e) w1)
      | (Inr out, w1) \<Rightarrow>
          (case sleep os check_time w1 of
             Inl e \<Rightarrow> Leave (Inl e) w1
           | Inr w2 \<Rightarrow> Again (Suc n) (elapsed_time + check_time) w2))"

partial_function (option) wait_loop ::
  "platform \<Rightarrow> 'v probe \<Rightarrow> int \<Rightarrow> int option \<Rightarrow> nat \<Rightarrow> int \<Rightarrow> world \<Rightarrow> ((py_exn + unit) \<times> world) option"
where
  "wait_loop os callback check_time timeout n elapsed_time w =
     (if loop_condition timeout elapsed_time then
        (case loop_body os callback check_time n elapsed_time w of
           Leave r w' \<Rightarrow> Some (r, w')
         | Again n' elapsed_time' w' \<Rightarrow>
             wait_loop os callback check_time timeout n' elapsed_time' w')
      else Some (Inl (TimeoutError ''Forecast resource deletion timed-out.''), w))"

declare wait_loop.simps [code]

definition wait_till_delete ::
  "platform \<Rightarrow> 'v probe \<Rightarrow> int \<Rightarrow> int option \<Rightarrow> world \<Rightarrow> ((py_exn + unit) \<times> world) option" where
  "wait_till_delete os callback check_time timeout w =
     wait_loop os callback check_time timeout 0 0 w"

text \<open>
  A call site may leave out \<open>check_time\<close> and \<open>timeout\<close>; Python then takes the defaults
  of the signature. An argument that is passed is \<open>Some\<close>, also when the value passed
  for \<open>timeout\<close> is Python's \<^verbatim>\<open>None\<close>.
\<close>

definition call_wait_till_delete ::
  "platform \<Rightarrow> 'v probe \<Rightarrow> int option \<Rightarrow> int option option \<Rightarrow> world \<Rightarrow>
     ((py_exn + unit) \<times> world) option"
where
  "call_wait_till_delete os callback check_time_arg timeout_arg w =
     wait_till_delete os callback
       (case check_time_arg of None \<Rightarrow> 5 | Some c \<Rightarrow> c)
       (case timeout_arg of None \<Rightarrow> Some 100 | Some t \<Rightarrow> t) w"

text \<open>
  The state at the top of the loop after \<open>k\<close> completed iterations, when the loop gets
  that far.
\<close>

primrec loop_head ::
  "platform \<Rightarrow> 'v probe \<Rightarrow> int \<Rightarrow> int option \<Rightarrow> world \<Rightarrow> nat \<Rightarrow> (nat \<times> int \<times> world) option" where
  "loop_head os callback check_time timeout w0 0 = Some (0, 0, w0)"
| "loop_head os callback check_time timeout w0 (Suc k) =
     (case loop_head os callback check_time timeout w0 k of
        None \<Rightarrow> None
      | Some (n, elapsed_time, w) \<Rightarrow>
          if loop_condition timeout elapsed_time then
            (case loop_body os callback check_time n elapsed_time w of
               Leave r w' \<Rightarrow> None
             | Again n' elapsed_time' w' \<Rightarrow> Some (n', elapsed_time', w'))
          else None)"

subsection \<open>The training-status loop\<close>

text \<open>
  \<^verbatim>\<open>
  status = client.describe_training_job(TrainingJobName=job_name)["TrainingJobStatus"]
  print(status)
  while status != "Completed" and status != "Failed":
      time.sleep(60)
      status = client.describe_training_job(TrainingJobName=job_name)["TrainingJobStatus"]
      print(status)
  \<close>
  The probe \<open>describe\<close> scripts the expression
  \<^verbatim>\<open>client.describe_training_job(...)["TrainingJobStatus"]\<close>: its \<open>i\<close>-th evaluation raises
  or yields a status string. The loop returns the last status read, or the exception
  that ended it.
\<close>

partial_function (option) status_loop ::
  "platform \<Rightarrow> string probe \<Rightarrow> nat \<Rightarrow> string \<Rightarrow> world \<Rightarrow> ((py_exn + string) \<times> world) option"
where
  "status_loop os describe n status w =
     (if status \<noteq> ''Completed'' \<and> status \<noteq> ''Failed'' then
        (case sleep os 60 w of
           Inl e \<Rightarrow> Some (Inl e, w)
         | Inr w1 \<Rightarrow>
             (case invoke describe n w1 of
                (Inl e, w2) \<Rightarrow> Some (Inl e, w2)
              | (Inr status', w2) \<Rightarrow> status_loop os describe (Suc n) status' (print status' w2)))
      else Some (Inr status, w))"

declare status_loop.simps [code]

definition wait_for_training ::
  "platform \<Rightarrow> string probe \<Rightarrow> world \<Rightarrow> ((py_exn + string) \<times> world) option" where
  "wait_for_training os describe w =
     (case invoke describe 0 w of
        (Inl e, w1) \<Rightarrow> Some (Inl e, w1)
      | (Inr status, w1) \<Rightarrow> status_loop os describe 1 status (print status w1))"

subsection \<open>Auxiliary notions and example inputs\<close>

text \<open>
  With a bound \<open>T\<close> and a positive \<open>check_time\<close>, the number of further passes the loop
  condition admits from \<open>elapsed_time\<close> when every pass sleeps: the least \<open>m\<close> with
  \<open>T \<le> elapsed_time + m * check_time\<close>.
\<close>

definition polls_left :: "int \<Rightarrow> int \<Rightarrow> int \<Rightarrow> nat" where
  "polls_left check_time T elapsed_time = nat ((T - elapsed_time + check_time - 1) div check_time)"

text \<open>
  What a call adds to the world: \<open>world_append w0 d\<close> is the world \<open>w0\<close> followed by the
  calls, sleeps, output and time recorded in \<open>d\<close>.
\<close>

definition world_append :: "world \<Rightarrow> world \<Rightarrow> world" where
  "world_append w0 d =
     \<lparr>calls = calls w0 + calls d, sleeps = sleeps w0 @ sleeps d,
      stdout = stdout w0 @ stdout d, clock = clock w0 + clock d\<rparr>"

definition fresh_world :: world where
  "fresh_world = \<lparr>calls = 0, sleeps = [], stdout = [], clock = 0\<rparr>"


text \<open>
  An example platform: a Linux host that has been up for \<open>10000\<close> seconds, on which the
  deadline of a sleep of more than \<open>9223362036\<close> seconds leaves the 64-bit range.
\<close>

definition linux_host :: platform where
  "linux_host t =
     (if 9223362036 < t then Some (OSError ''[Errno 22] Invalid argument'') else None)"

text \<open>
  Example probes. Each invocation takes 2 simulated seconds.
  \<open>deleted_on_third\<close>: the resource is still there at the first two invocations and gone
  at the third. \<open>never_deleted\<close>: the resource stays. \<open>already_deleted\<close>: the resource is gone
  from the start. \<open>access_denied\<close>: every invocation
  fails with another error code. \<open>connection_lost\<close>: every invocation fails with an
  exception that is no \<^verbatim>\<open>ClientError\<close>.
\<close>

definition deleted_on_third :: "unit probe" where
  "deleted_on_third i =
     (if i < 2 then Invocation 2 (Inr ())
      else Invocation 2 (Inl (ClientError ''ResourceNotFoundException'')))"

definition never_deleted :: "unit probe" where
  "never_deleted i = Invocation 2 (Inr ())"

definition access_denied :: "unit probe" where
  "access_denied i = Invocation 2 (Inl (ClientError ''AccessDeniedException''))"

definition already_deleted :: "unit probe" where
  "already_deleted i = Invocation 2 (Inl (ClientError ''ResourceNotFoundException''))"

definition connection_lost :: "unit probe" where
  "connection_lost i = Invocation 2 (Inl (OtherException ''EndpointConnectionError''))"


text \<open>
  Example training jobs: one that is in progress at the first two status reads and
  completed at the third, one that stays in progress, and one that ends up stopped.
\<close>

definition job_completes :: "string probe" where
  "job_completes i =
     (if i < 2 then Invocation 1 (Inr ''InProgress'') else Invocation 1 (Inr ''Completed''))"

definition job_in_progress :: "string probe" where
  "job_in_progress i = Invocation 1 (Inr ''InProgress'')"

definition job_stopped :: "string probe" where
  "job_stopped i =
     (if i < 1 then Invocation 1 (Inr ''Stopping'') else Invocation 1 (Inr ''Stopped''))"

section \<open>Properties of \<^verbatim>\<open>wait_till_delete\<close>\<close>

subsection \<open>Sleeping\<close>

lemma sleep_accepted:
  "sleep_error os t = None \<Longrightarrow>
   sleep os t w = Inr (w\<lparr>sleeps := sleeps w @ [t], clock := clock w + t\<rparr>)"
  by (simp add: sleep_def)

lemma sleep_error_small: "0 \<le> t \<Longrightarrow> t \<le> 1000000 \<Longrightarrow> sleep_error os t = None"
  by (simp add: sleep_error_def)

lemma sleep_error_None_nonneg: "sleep_error os t = None \<Longrightarrow> 0 \<le> t"
  by (simp add: sleep_error_def split: if_splits)

subsection \<open>One pass through the loop body\<close>

lemma loop_condition_mono:
  "loop_condition timeout (e + d) \<Longrightarrow> 0 \<le> d \<Longrightarrow> loop_condition timeout e"
  by (auto simp: loop_condition_def split: option.splits)

lemma loop_body_returns:
  "outcome (callback n) = Inr v \<Longrightarrow> sleep_error os check_time = None \<Longrightarrow>
   loop_body os callback check_time n e w =
     Again (Suc n) (e + check_time)
       (w\<lparr>calls := calls w + 1, sleeps := sleeps w @ [check_time],
          clock := clock w + took (callback n) + check_time\<rparr>)"
  by (simp add: loop_body_def invoke_def sleep_def)

lemma loop_body_sleep_fails:
  "outcome (callback n) = Inr v \<Longrightarrow> sleep_error os check_time = Some x \<Longrightarrow>
   loop_body os callback check_time n e w =
     Leave (Inl x) (w\<lparr>calls := calls w + 1, clock := clock w + took (callback n)\<rparr>)"
  by (simp add: loop_body_def invoke_def sleep_def)

lemma loop_body_not_found:
  "outcome (callback n) = Inl (ClientError ''ResourceNotFoundException'') \<Longrightarrow>
   loop_body os callback check_time n e w =
     Leave (Inr ())
       (w\<lparr>calls := calls w + 1, stdout := stdout w @ [''Successful delete''],
          clock := clock w + took (callback n)\<rparr>)"
  by (simp add: loop_body_def invoke_def print_def)

lemma loop_body_raises:
  "outcome (callback n) = Inl x \<Longrightarrow> x \<noteq> ClientError ''ResourceNotFoundException'' \<Longrightarrow>
   loop_body os callback check_time n e w =
     Leave (Inl x) (w\<lparr>calls := calls w + 1, clock := clock w + took (callback n)\<rparr>)"
  by (cases x) (simp_all add: loop_body_def invoke_def)

lemma loop_body_calls:
  "loop_body os callback check_time n e w = Leave r w' \<Longrightarrow> calls w' = Suc (calls w)"
  "loop_body os callback check_time n e w = Again n' e' w' \<Longrightarrow>
     n' = Suc n \<and> e' = e + check_time \<and> calls w' = Suc (calls w)"
  by (auto simp: loop_body_def invoke_def sleep_def print_def
      split: sum.splits py_exn.splits if_splits option.splits)

text \<open>
  \<open>d\<close> passes in a row: the probe returns normally, the sleep is accepted, and the loop
  condition held at the top of each of them.
\<close>

lemma wait_loop_passes:
  assumes "\<forall>i<d. \<exists>v. outcome (callback (n + i)) = Inr v"
    and "0 < d \<longrightarrow> sleep_error os check_time = None"
    and "\<forall>j<d. loop_condition timeout (e + int j * check_time)"
  shows "wait_loop os callback check_time timeout n e w =
     wait_loop os callback check_time timeout (n + d) (e + int d * check_time)
       (w\<lparr>calls := calls w + d, sleeps := sleeps w @ replicate d check_time,
         clock := clock w + int d * check_time + (\<Sum>i<d. took (callback (n + i)))\<rparr>)"
  using assms
proof (induction d arbitrary: n e w)
  case 0
  then show ?case by simp
next
  case (Suc d)
  from Suc.prems(1) obtain v where v: "outcome (callback n) = Inr v"
    by (metis add.right_neutral zero_less_Suc)
  have ok: "sleep_error os check_time = None"
    using Suc.prems(2) by simp
  have c: "loop_condition timeout e"
    using Suc.prems(3) by (metis add.right_neutral mult_zero_left of_nat_0 zero_less_Suc)
  have a: "\<forall>i<d. \<exists>v. outcome (callback (Suc n + i)) = Inr v"
    using Suc.prems(1) by (metis Suc_less_eq add_Suc_shift)
  have b: "0 < d \<longrightarrow> sleep_error os check_time = None"
    using ok by simp
  have g: "\<forall>j<d. loop_condition timeout (e + check_time + int j * check_time)"
  proof (intro allI impI)
    fix j assume "j < d"
    then have "Suc j < Suc d"
      by simp
    with Suc.prems(3) have "loop_condition timeout (e + int (Suc j) * check_time)"
      by blast
    then show "loop_condition timeout (e + check_time + int j * check_time)"
      by (simp add: algebra_simps)
  qed
  have s: "(\<Sum>i<Suc d. took (callback (n + i))) =
      took (callback n) + (\<Sum>i<d. took (callback (Suc n + i)))"
    by (subst sum.lessThan_Suc_shift) simp
  have step: "wait_loop os callback check_time timeout n e w =
      wait_loop os callback check_time timeout (Suc n) (e + check_time)
        (w\<lparr>calls := calls w + 1, sleeps := sleeps w @ [check_time],
          clock := clock w + took (callback n) + check_time\<rparr>)"
    by (subst wait_loop.simps) (simp add: c loop_body_returns [of callback n, OF v ok])
  have e: "e + check_time + int d * check_time = e + int (Suc d) * check_time"
    by (simp add: algebra_simps)
  show ?case
    apply (simp only: step Suc.IH [OF a b g] s e add_Suc_shift)
    apply (simp add: replicate_append_same del: sum.lessThan_Suc)
    apply (simp add: algebra_simps del: sum.lessThan_Suc)
    done
qed

lemma wait_loop_leaves:
  assumes "loop_condition timeout e" and "outcome (callback n) = Inl x"
  shows "wait_loop os callback check_time timeout n e w =
     Some (if x = ClientError ''ResourceNotFoundException''
           then (Inr (),
             w\<lparr>calls := calls w + 1, stdout := stdout w @ [''Successful delete''],
               clock := clock w + took (callback n)\<rparr>)
           else (Inl x, w\<lparr>calls := calls w + 1, clock := clock w + took (callback n)\<rparr>))"
proof (cases "x = ClientError ''ResourceNotFoundException''")
  case True
  with assms(2) have "outcome (callback n) = Inl (ClientError ''ResourceNotFoundException'')"
    by simp
  from loop_body_not_found [of callback n, OF this] assms(1) True show ?thesis
    by (subst wait_loop.simps) simp
next
  case False
  from loop_body_raises [of callback n, OF assms(2) False] assms(1) False show ?thesis
    by (subst wait_loop.simps) simp
qed

lemma wait_loop_condition_fails:
  "\<not> loop_condition timeout e \<Longrightarrow>
   wait_loop os callback check_time timeout n e w =
     Some (Inl (TimeoutError ''Forecast resource deletion timed-out.''), w)"
  by (subst wait_loop.simps) simp

lemma loop_conditions_before:
  assumes "loop_condition timeout (e + int d * check_time)" and "0 \<le> check_time"
  shows "\<forall>j<d. loop_condition timeout (e + int j * check_time)"
proof (intro allI impI)
  fix j assume "j < d"
  then have "int j * check_time \<le> int d * check_time"
    using assms(2) by (simp add: mult_right_mono)
  then have "0 \<le> int d * check_time - int j * check_time"
    by simp
  with assms(1) show "loop_condition timeout (e + int j * check_time)"
    by (intro loop_condition_mono [of timeout "e + int j * check_time"
          "int d * check_time - int j * check_time"]) simp_all
qed

lemma wait_loop_found:
  assumes "0 < d \<longrightarrow> sleep_error os check_time = None"
    and "\<forall>i<d. \<exists>v. outcome (callback (n + i)) = Inr v"
    and "outcome (callback (n + d)) = Inl (ClientError ''ResourceNotFoundException'')"
    and "loop_condition timeout (e + int d * check_time)"
  shows "wait_loop os callback check_time timeout n e w =
     Some (Inr (),
       w\<lparr>calls := calls w + Suc d, sleeps := sleeps w @ replicate d check_time,
         stdout := stdout w @ [''Successful delete''],
         clock := clock w + int d * check_time + (\<Sum>i<Suc d. took (callback (n + i)))\<rparr>)"
proof -
  have nn: "0 < d \<longrightarrow> 0 \<le> check_time"
    using assms(1) sleep_error_None_nonneg by blast
  have before: "\<forall>j<d. loop_condition timeout (e + int j * check_time)"
  proof (cases "0 < d")
    case True
    with nn assms(4) show ?thesis
      by (intro loop_conditions_before) simp_all
  qed simp
  have "wait_loop os callback check_time timeout n e w =
     wait_loop os callback check_time timeout (n + d) (e + int d * check_time)
       (w\<lparr>calls := calls w + d, sleeps := sleeps w @ replicate d check_time,
         clock := clock w + int d * check_time + (\<Sum>i<d. took (callback (n + i)))\<rparr>)"
    using assms(2,1) before by (rule wait_loop_passes)
  also have "\<dots> = Some (Inr (),
       w\<lparr>calls := calls w + Suc d, sleeps := sleeps w @ replicate d check_time,
         stdout := stdout w @ [''Successful delete''],
         clock := clock w + int d * check_time + (\<Sum>i<Suc d. took (callback (n + i)))\<rparr>)"
    by (subst wait_loop_leaves [of timeout _ callback "n + d", OF assms(4,3)]) simp
  finally show ?thesis .
qed

subsection \<open>The probe reports not-found at its \<open>k\<close>-th invocation\<close>




subsection \<open>A probe that never reports not-found\<close>

lemma polls_left_done:
  assumes "0 < ct" "T \<le> e"
  shows "polls_left ct T e = 0"
proof (cases "T - e + ct - 1 < 0")
  case True
  then show ?thesis
    using assms(1) div_neg_pos_less0 [of "T - e + ct - 1" ct] by (simp add: polls_left_def)
next
  case False
  then have "(T - e + ct - 1) div ct = 0"
    using assms by (intro div_pos_pos_trivial) auto
  then show ?thesis
    by (simp add: polls_left_def)
qed

lemma polls_left_step:
  assumes "0 < ct" "e < T"
  shows "polls_left ct T e = Suc (polls_left ct T (e + ct))"
proof -
  have "T - e + ct - 1 = (T - (e + ct) + ct - 1) + ct"
    by simp
  moreover have "((T - (e + ct) + ct - 1) + ct) div ct = (T - (e + ct) + ct - 1) div ct + 1"
    using assms by (intro div_add_self2) simp
  ultimately have "(T - e + ct - 1) div ct = (T - (e + ct) + ct - 1) div ct + 1"
    by (simp only:)
  moreover have "0 \<le> (T - (e + ct) + ct - 1) div ct"
    using assms by (simp add: pos_imp_zdiv_nonneg_iff)
  ultimately show ?thesis
    by (simp add: polls_left_def nat_add_distrib)
qed

lemma polls_left_least:
  assumes "0 < ct"
  shows "T \<le> e + int (polls_left ct T e) * ct"
    and "j < polls_left ct T e \<Longrightarrow> e + int j * ct < T"
proof -
  have both: "T \<le> e + int m * ct \<and> (\<forall>j<m. e + int j * ct < T)" if "m = polls_left ct T e" for m e
    using that
  proof (induction m arbitrary: e)
    case 0
    then show ?case
      using assms polls_left_step [of ct e T] by (cases "e < T") auto
  next
    case (Suc m)
    have lt: "e < T"
      using Suc.prems assms polls_left_done [of ct T e] by (cases "e < T") auto
    then have "m = polls_left ct T (e + ct)"
      using Suc.prems assms polls_left_step [of ct e T] by simp
    from Suc.IH [OF this] have ih: "T \<le> e + ct + int m * ct" "\<forall>j<m. e + ct + int j * ct < T"
      by auto
    have "e + int j * ct < T" if "j < Suc m" for j
    proof (cases j)
      case 0
      then show ?thesis using lt by simp
    next
      case (Suc j')
      then show ?thesis using ih(2) that by (auto simp: algebra_simps)
    qed
    then show ?case
      using ih(1) by (auto simp: algebra_simps)
  qed
  from both [OF refl] show "T \<le> e + int (polls_left ct T e) * ct" by blast
  from both [OF refl] show "j < polls_left ct T e \<Longrightarrow> e + int j * ct < T" by blast
qed

lemma wait_loop_times_out:
  assumes "0 < check_time"
    and "\<forall>i. \<exists>v. outcome (callback i) = Inr v"
    and "m = polls_left check_time T e"
    and "0 < m \<longrightarrow> sleep_error os check_time = None"
  shows "wait_loop os callback check_time (Some T) n e w =
     Some (Inl (TimeoutError ''Forecast resource deletion timed-out.''),
       w\<lparr>calls := calls w + m, sleeps := sleeps w @ replicate m check_time,
         clock := clock w + int m * check_time + (\<Sum>i<m. took (callback (n + i)))\<rparr>)"
proof -
  have a: "\<forall>i<m. \<exists>v. outcome (callback (n + i)) = Inr v"
    using assms(2) by simp
  have before: "\<forall>j<m. loop_condition (Some T) (e + int j * check_time)"
    using polls_left_least(2) [OF assms(1), of _ T e] assms(3)
    by (simp add: loop_condition_def)
  have "T \<le> e + int m * check_time"
    using polls_left_least(1) [OF assms(1), of T e] assms(3) by simp
  then have stop: "\<not> loop_condition (Some T) (e + int m * check_time)"
    by (simp add: loop_condition_def)
  have "wait_loop os callback check_time (Some T) n e w =
     wait_loop os callback check_time (Some T) (n + m) (e + int m * check_time)
       (w\<lparr>calls := calls w + m, sleeps := sleeps w @ replicate m check_time,
         clock := clock w + int m * check_time + (\<Sum>i<m. took (callback (n + i)))\<rparr>)"
    using a assms(4) before by (rule wait_loop_passes)
  also have "\<dots> = Some (Inl (TimeoutError ''Forecast resource deletion timed-out.''),
       w\<lparr>calls := calls w + m, sleeps := sleeps w @ replicate m check_time,
         clock := clock w + int m * check_time + (\<Sum>i<m. took (callback (n + i)))\<rparr>)"
    using stop by (rule wait_loop_condition_fails)
  finally show ?thesis .
qed

lemma wait_loop_bounded:
  assumes "0 < check_time"
    and "m = polls_left check_time T e"
  shows "\<exists>r w'. wait_loop os callback check_time (Some T) n e w = Some (r, w') \<and>
           calls w' \<le> calls w + m"
  using assms(2)
proof (induction m arbitrary: n e w)
  case 0
  then have "\<not> e < T"
    using assms(1) polls_left_step [of check_time e T] by auto
  then show ?case
    by (subst wait_loop.simps) (simp add: loop_condition_def)
next
  case (Suc m)
  have lt: "e < T"
    using Suc.prems assms(1) polls_left_done [of check_time T e] by (cases "e < T") auto
  then have m: "m = polls_left check_time T (e + check_time)"
    using Suc.prems assms(1) polls_left_step [of check_time e T] by simp
  have c: "loop_condition (Some T) e"
    using lt by (simp add: loop_condition_def)
  show ?case
  proof (cases "loop_body os callback check_time n e w")
    case (Leave r w')
    then show ?thesis
      using c loop_body_calls(1) [OF Leave] by (subst wait_loop.simps) simp
  next
    case (Again n' e' w')
    from loop_body_calls(2) [OF Again]
    have eq: "n' = Suc n" "e' = e + check_time" "calls w' = Suc (calls w)"
      by auto
    from Suc.IH [OF m, of "Suc n" w'] obtain r w'' where
      "wait_loop os callback check_time (Some T) (Suc n) (e + check_time) w' = Some (r, w'')"
      "calls w'' \<le> calls w' + m"
      by blast
    then show ?thesis
      using c Again eq by (subst wait_loop.simps) simp
  qed
qed




text \<open>
  Claim C8. A call that passes only the probe runs with \<open>check_time = 5\<close> and
  \<open>timeout = 100\<close>. Whatever the probe does, that call returns or raises after at most
  20 invocations of the probe, and a probe that always returns normally gets
  \<^verbatim>\<open>TimeoutError\<close> after exactly 20 invocations and 20 sleeps of 5 seconds: the default
  wait is bounded.
\<close>

theorem default_wait_is_bounded:
  "call_wait_till_delete os callback None None w = wait_till_delete os callback 5 (Some 100) w \<and>
   (\<exists>r w'. call_wait_till_delete os callback None None w = Some (r, w') \<and>
      calls w' \<le> calls w + 20) \<and>
   ((\<forall>i. \<exists>v. outcome (callback i) = Inr v) \<longrightarrow>
      call_wait_till_delete os callback None None w =
        Some (Inl (TimeoutError ''Forecast resource deletion timed-out.''),
          w\<lparr>calls := calls w + 20, sleeps := sleeps w @ replicate 20 5,
            clock := clock w + 100 + (\<Sum>i<20. took (callback i))\<rparr>))"
proof -
  have m: "20 = polls_left 5 100 0"
    by (simp add: polls_left_def)
  have d: "call_wait_till_delete os callback None None w = wait_till_delete os callback 5 (Some 100) w"
    by (simp add: call_wait_till_delete_def)
  have b: "\<exists>r w'. wait_loop os callback 5 (Some 100) 0 0 w = Some (r, w') \<and> calls w' \<le> calls w + 20"
    using m by (intro wait_loop_bounded) simp
  have t: "wait_loop os callback 5 (Some 100) 0 0 w =
        Some (Inl (TimeoutError ''Forecast resource deletion timed-out.''),
          w\<lparr>calls := calls w + 20, sleeps := sleeps w @ replicate 20 5,
            clock := clock w + int 20 * 5 + (\<Sum>i<20. took (callback (0 + i)))\<rparr>)"
    if "\<forall>i. \<exists>v. outcome (callback i) = Inr v"
    using that m by (intro wait_loop_times_out) (simp_all add: sleep_error_small)
  show ?thesis
    using b t by (simp add: d wait_till_delete_def)
qed

text \<open>A resource that is never deleted, waited for with the defaults.\<close>

theorem default_wait_is_bounded_witness:
  "call_wait_till_delete linux_host never_deleted None None fresh_world =
     Some (Inl (TimeoutError ''Forecast resource deletion timed-out.''),
       \<lparr>calls = 20, sleeps = replicate 20 5, stdout = [], clock = 140\<rparr>)"
proof -
  have "\<forall>i. \<exists>v. outcome (never_deleted i) = Inr v"
    by (simp add: never_deleted_def)
  with default_wait_is_bounded [of linux_host never_deleted fresh_world]
  have "call_wait_till_delete linux_host never_deleted None None fresh_world =
        Some (Inl (TimeoutError ''Forecast resource deletion timed-out.''),
          fresh_world\<lparr>calls := calls fresh_world + 20,
            sleeps := sleeps fresh_world @ replicate 20 5,
            clock := clock fresh_world + 100 + (\<Sum>i<20. took (never_deleted i))\<rparr>)"
    by blast
  then show ?thesis
    by (simp add: fresh_world_def never_deleted_def)
qed

subsection \<open>The first evaluation of the loop condition\<close>

lemma wait_loop_calls_mono:
  assumes "wait_loop os callback check_time timeout n e w = Some y"
  shows "calls w \<le> calls (snd y)"
  using assms
proof (induction rule: wait_loop.raw_induct [rotated 1, consumes 1, case_names pass])
  case (pass f os callback check_time timeout n e w y)
  show ?case
  proof (cases "loop_condition timeout e")
    case False
    with pass.hyps show ?thesis by auto
  next
    case True
    show ?thesis
    proof (cases "loop_body os callback check_time n e w")
      case (Leave r w')
      with True pass.hyps loop_body_calls(1) [OF Leave] show ?thesis by auto
    next
      case (Again n' e' w')
      with True pass.hyps have "f os callback check_time timeout n' e' w' = Some y"
        by simp
      from pass.IH [OF this] loop_body_calls(2) [OF Again] show ?thesis by simp
    qed
  qed
qed

lemma wait_loop_first_pass:
  assumes "loop_condition timeout e"
    and "wait_loop os callback check_time timeout n e w = Some (r, w')"
  shows "calls w < calls w'"
proof (cases "loop_body os callback check_time n e w")
  case (Leave r0 w0)
  with assms loop_body_calls(1) [OF Leave] show ?thesis
    by (subst (asm) wait_loop.simps) simp
next
  case (Again n1 e1 w1)
  with assms have "wait_loop os callback check_time timeout n1 e1 w1 = Some (r, w')"
    by (subst (asm) wait_loop.simps) simp
  from wait_loop_calls_mono [OF this] loop_body_calls(2) [OF Again] show ?thesis
    by simp
qed

text \<open>
  Claim C3, as amended. Let the first invocation of the probe raise a failure that is not
  the not-found error, and let the timeout be \<^verbatim>\<open>None\<close> or positive, so that the loop is
  entered. Then \<open>wait_till_delete\<close> raises that same failure: the probe has been invoked
  exactly once, nothing has been slept or printed.
\<close>

theorem first_failure_propagates:
  assumes "outcome (callback 0) = Inl x"
    and "x \<noteq> ClientError ''ResourceNotFoundException''"
    and "case timeout of None \<Rightarrow> True | Some T \<Rightarrow> 0 < T"
  shows "wait_till_delete os callback check_time timeout w =
     Some (Inl x, w\<lparr>calls := calls w + 1, clock := clock w + took (callback 0)\<rparr>)"
proof -
  have "loop_condition timeout 0"
    using assms(3) by (simp add: loop_condition_def)
  then show ?thesis
    unfolding wait_till_delete_def
    by (subst wait_loop.simps) (simp add: loop_body_raises [of callback 0, OF assms(1,2)])
qed

text \<open>A lost connection at the first invocation, with interval 5 and bound 100.\<close>

theorem first_failure_propagates_witness:
  "wait_till_delete linux_host connection_lost 5 (Some 100) fresh_world =
     Some (Inl (OtherException ''EndpointConnectionError''),
       \<lparr>calls = 1, sleeps = [], stdout = [], clock = 2\<rparr>)"
  using first_failure_propagates
    [where callback = connection_lost and x = "OtherException ''EndpointConnectionError''"
      and timeout = "Some 100" and os = linux_host and check_time = 5 and w = fresh_world]
  by (simp add: connection_lost_def fresh_world_def)

text \<open>
  With a timeout of 0 the statement of C3 fails: the probe that would raise
  \<^verbatim>\<open>AccessDeniedException\<close> is never invoked and \<^verbatim>\<open>TimeoutError\<close> is raised instead.
\<close>

theorem first_failure_zero_timeout_counterexample:
  "outcome (access_denied 0) = Inl (ClientError ''AccessDeniedException'') \<and>
   wait_till_delete linux_host access_denied 5 (Some 0) fresh_world =
     Some (Inl (TimeoutError ''Forecast resource deletion timed-out.''),
       \<lparr>calls = 0, sleeps = [], stdout = [], clock = 0\<rparr>)"
  by (simp add: wait_till_delete_def wait_loop.simps loop_condition_def fresh_world_def
      access_denied_def)

text \<open>
  Claim C4, as amended. The loop condition is evaluated before the first invocation of
  the probe. With \<open>timeout = 0\<close> (or a negative timeout) it is false at once:
  \<open>wait_till_delete\<close> raises \<^verbatim>\<open>TimeoutError\<close> and the world is unchanged, so the probe has
  not been invoked and nothing has been slept. Only when the timeout is \<^verbatim>\<open>None\<close> or
  positive has the probe been invoked at least once by the time the call ends, in
  particular before a \<^verbatim>\<open>TimeoutError\<close>.
\<close>

theorem timeout_checked_before_first_probe:
  "(T \<le> 0 \<longrightarrow>
      wait_till_delete os callback check_time (Some T) w =
        Some (Inl (TimeoutError ''Forecast resource deletion timed-out.''), w)) \<and>
   ((case timeout of None \<Rightarrow> True | Some T' \<Rightarrow> 0 < T') \<longrightarrow>
      wait_till_delete os callback check_time timeout w = Some (r, w') \<longrightarrow>
      calls w < calls w')"
proof (intro conjI impI)
  assume "T \<le> 0"
  then show "wait_till_delete os callback check_time (Some T) w =
      Some (Inl (TimeoutError ''Forecast resource deletion timed-out.''), w)"
    unfolding wait_till_delete_def
    by (subst wait_loop.simps) (simp add: loop_condition_def)
next
  assume "case timeout of None \<Rightarrow> True | Some T' \<Rightarrow> 0 < T'"
  then have "loop_condition timeout 0"
    by (simp add: loop_condition_def)
  moreover assume "wait_till_delete os callback check_time timeout w = Some (r, w')"
  ultimately show "calls w < calls w'"
    unfolding wait_till_delete_def by (rule wait_loop_first_pass)
qed

text \<open>A bound of 0 against a bound of 5, for a resource that is never deleted.\<close>

theorem timeout_checked_before_first_probe_witness:
  "wait_till_delete linux_host never_deleted 5 (Some 0) fresh_world =
     Some (Inl (TimeoutError ''Forecast resource deletion timed-out.''), fresh_world) \<and>
   wait_till_delete linux_host never_deleted 5 (Some 5) fresh_world =
     Some (Inl (TimeoutError ''Forecast resource deletion timed-out.''),
       \<lparr>calls = 1, sleeps = [5], stdout = [], clock = 7\<rparr>) \<and>
   calls fresh_world < calls \<lparr>calls = 1, sleeps = [5], stdout = [], clock = 7\<rparr>"
proof -
  have r: "wait_till_delete linux_host never_deleted 5 (Some 5) fresh_world =
     Some (Inl (TimeoutError ''Forecast resource deletion timed-out.''),
       \<lparr>calls = 1, sleeps = [5], stdout = [], clock = 7\<rparr>)"
    by (simp add: wait_till_delete_def wait_loop.simps loop_condition_def loop_body_def
        invoke_def sleep_def sleep_error_def never_deleted_def fresh_world_def)
  from timeout_checked_before_first_probe
    [where T = 0 and os = linux_host and callback = never_deleted and check_time = 5
      and w = fresh_world and timeout = "Some 5"
      and r = "Inl (TimeoutError ''Forecast resource deletion timed-out.'')"
      and w' = "\<lparr>calls = 1, sleeps = [5], stdout = [], clock = 7\<rparr>"] r
  show ?thesis
    by simp
qed

text \<open>
  The statement of C4 fails at \<open>timeout = 0\<close>: even a probe that would report not-found
  at its first invocation is not invoked.
\<close>

theorem zero_timeout_never_probes_counterexample:
  "outcome (already_deleted 0) = Inl (ClientError ''ResourceNotFoundException'') \<and>
   wait_till_delete linux_host already_deleted 5 (Some 0) fresh_world =
     Some (Inl (TimeoutError ''Forecast resource deletion timed-out.''), fresh_world) \<and>
   calls fresh_world = 0"
  by (simp add: wait_till_delete_def wait_loop.simps loop_condition_def fresh_world_def
      already_deleted_def)

text \<open>
  Claim C5, as amended. With \<open>timeout = None\<close> the loop condition holds whatever
  \<open>elapsed_time\<close> is. For a probe that returns normally twice and raises the not-found
  error at its third invocation, and every \<open>check_time\<close> that \<^verbatim>\<open>time.sleep\<close> accepts,
  \<open>wait_till_delete\<close> returns normally after three invocations and two sleeps, whatever
  the accumulated \<open>2 * check_time\<close> is.
\<close>

theorem unbounded_wait_found_on_third:
  assumes "sleep_error os check_time = None"
    and "\<exists>v. outcome (callback 0) = Inr v"
    and "\<exists>v. outcome (callback 1) = Inr v"
    and "outcome (callback 2) = Inl (ClientError ''ResourceNotFoundException'')"
  shows "loop_condition None e \<and>
     wait_till_delete os callback check_time None w =
       Some (Inr (),
         w\<lparr>calls := calls w + 3, sleeps := sleeps w @ [check_time, check_time],
           stdout := stdout w @ [''Successful delete''],
           clock := clock w + 2 * check_time +
             (took (callback 0) + took (callback 1) + took (callback 2))\<rparr>)"
proof -
  have ok: "0 < (2::nat) \<longrightarrow> sleep_error os check_time = None"
    using assms(1) by simp
  have a: "\<forall>i<2. \<exists>v. outcome (callback (0 + i)) = Inr v"
    using assms(2,3) by (auto simp: less_Suc_eq numeral_2_eq_2)
  have b: "outcome (callback (0 + 2)) = Inl (ClientError ''ResourceNotFoundException'')"
    using assms(4) by (simp only: add_0)
  have c: "loop_condition None (0 + int 2 * check_time)"
    by (simp add: loop_condition_def)
  from wait_loop_found [OF ok a b c, of w] show ?thesis
    by (simp add: wait_till_delete_def loop_condition_def eval_nat_numeral)
qed

text \<open>An interval of a million seconds and no bound.\<close>

theorem unbounded_wait_found_on_third_witness:
  "wait_till_delete linux_host deleted_on_third 1000000 None fresh_world =
     Some (Inr (),
       \<lparr>calls = 3, sleeps = [1000000, 1000000], stdout = [''Successful delete''],
        clock = 2000006\<rparr>)"
  using unbounded_wait_found_on_third
    [where os = linux_host and check_time = 1000000 and callback = deleted_on_third
      and e = 0 and w = fresh_world]
  by (simp add: deleted_on_third_def fresh_world_def sleep_error_small)

text \<open>
  The statement of C5 fails for an interval that \<^verbatim>\<open>time.sleep\<close> does not accept: with
  \<open>10^10\<close> seconds the first sleep raises \<^verbatim>\<open>OverflowError\<close>, and the wait ends with that
  error after one invocation instead of returning at the third.
\<close>

theorem unbounded_wait_interval_too_long_counterexample:
  "outcome (deleted_on_third 0) = Inr () \<and>
   outcome (deleted_on_third 1) = Inr () \<and>
   outcome (deleted_on_third 2) = Inl (ClientError ''ResourceNotFoundException'') \<and>
   wait_till_delete linux_host deleted_on_third 10000000000 None fresh_world =
     Some (Inl (OverflowError ''timestamp too large to convert to C _PyTime_t''),
       \<lparr>calls = 1, sleeps = [], stdout = [], clock = 2\<rparr>)"
  by (simp add: wait_till_delete_def wait_loop.simps loop_condition_def loop_body_def
      invoke_def sleep_def sleep_error_def deleted_on_third_def fresh_world_def)

subsection \<open>Which failures of the probe end the wait\<close>

lemma loop_head_Suc:
  assumes "loop_head os callback check_time timeout w0 (Suc k) = Some (n', e', w')"
  obtains n e w where "loop_head os callback check_time timeout w0 k = Some (n, e, w)"
    and "loop_condition timeout e"
    and "loop_body os callback check_time n e w = Again n' e' w'"
  using assms by (auto split: option.splits if_splits step.splits)

lemma loop_head_wait_loop:
  assumes "loop_head os callback check_time timeout w0 k = Some (n, e, w)"
  shows "wait_loop os callback check_time timeout 0 0 w0 = wait_loop os callback check_time timeout n e w"
  using assms
proof (induction k arbitrary: n e w)
  case 0
  then show ?case by simp
next
  case (Suc k)
  from Suc.prems obtain n0 e0 w1 where
    h: "loop_head os callback check_time timeout w0 k = Some (n0, e0, w1)"
    and c: "loop_condition timeout e0"
    and b: "loop_body os callback check_time n0 e0 w1 = Again n e w"
    by (rule loop_head_Suc)
  have "wait_loop os callback check_time timeout n0 e0 w1 = wait_loop os callback check_time timeout n e w"
    using c b by (subst wait_loop.simps) simp
  with Suc.IH [OF h] show ?case
    by simp
qed

lemma loop_body_Leave_return:
  assumes "loop_body os callback check_time n e w = Leave (Inr ()) w'"
  shows "outcome (callback n) = Inl (ClientError ''ResourceNotFoundException'')"
proof (cases "outcome (callback n)")
  case (Inl x)
  show ?thesis
  proof (cases "x = ClientError ''ResourceNotFoundException''")
    case True
    with Inl show ?thesis by simp
  next
    case False
    from loop_body_raises [of callback n, OF Inl False] assms show ?thesis
      by simp
  qed
next
  case (Inr v)
  with assms show ?thesis
    by (simp add: loop_body_def invoke_def sleep_def split: option.splits)
qed

lemma wait_loop_return_means_not_found:
  assumes "wait_loop os callback check_time timeout n e w = Some y"
  shows "fst y = Inr () \<longrightarrow>
     (\<exists>i. calls (snd y) = calls w + Suc i \<and>
        outcome (callback (n + i)) = Inl (ClientError ''ResourceNotFoundException''))"
  using assms
proof (induction rule: wait_loop.raw_induct [rotated 1, consumes 1, case_names pass])
  case (pass f os callback check_time timeout n e w y)
  show ?case
  proof (cases "loop_condition timeout e")
    case False
    with pass.hyps show ?thesis by auto
  next
    case True
    show ?thesis
    proof (cases "loop_body os callback check_time n e w")
      case (Leave r w')
      with True pass.hyps have y: "y = (r, w')"
        by simp
      show ?thesis
      proof
        assume "fst y = Inr ()"
        with y Leave have l: "loop_body os callback check_time n e w = Leave (Inr ()) w'"
          by simp
        from loop_body_Leave_return [OF l] loop_body_calls(1) [OF l] y
        have "calls (snd y) = calls w + Suc 0 \<and>
          outcome (callback (n + 0)) = Inl (ClientError ''ResourceNotFoundException'')"
          by simp
        then show "\<exists>i. calls (snd y) = calls w + Suc i \<and>
          outcome (callback (n + i)) = Inl (ClientError ''ResourceNotFoundException'')"
          by (rule exI [of _ 0])
      qed
    next
      case (Again n' e' w')
      with True pass.hyps have "f os callback check_time timeout n' e' w' = Some y"
        by simp
      from pass.IH [OF this] loop_body_calls(2) [OF Again]
      have ih: "fst y = Inr () \<longrightarrow>
         (\<exists>i. calls (snd y) = Suc (calls w) + Suc i \<and>
          outcome (callback (Suc n + i)) = Inl (ClientError ''ResourceNotFoundException''))"
        by simp
      show ?thesis
      proof
        assume "fst y = Inr ()"
        with ih obtain i where "calls (snd y) = Suc (calls w) + Suc i"
          "outcome (callback (Suc n + i)) = Inl (ClientError ''ResourceNotFoundException'')"
          by blast
        then have "calls (snd y) = calls w + Suc (Suc i) \<and>
          outcome (callback (n + Suc i)) = Inl (ClientError ''ResourceNotFoundException'')"
          by simp
        then show "\<exists>i. calls (snd y) = calls w + Suc i \<and>
          outcome (callback (n + i)) = Inl (ClientError ''ResourceNotFoundException'')"
          by (rule exI [of _ "Suc i"])
      qed
    qed
  qed
qed

text \<open>
  Claim C9. If \<open>wait_till_delete\<close> returns normally, the last invocation of the probe
  raised a \<^verbatim>\<open>ClientError\<close> with the code \<^verbatim>\<open>ResourceNotFoundException\<close>. And whenever an
  invocation takes place (the top of the loop is reached and the loop condition holds)
  and raises \<open>x\<close>: if \<open>x\<close> is a \<^verbatim>\<open>ClientError\<close> with exactly that code the call prints one
  line and returns normally; any other \<open>x\<close>, a \<^verbatim>\<open>ClientError\<close> with another code or an
  exception of another class, is raised to the caller as it is, with no sleep and no
  further invocation.
\<close>

theorem only_resource_not_found_ends_wait:
  "(wait_till_delete os callback check_time timeout w = Some (Inr (), w') \<longrightarrow>
      (\<exists>i. calls w' = calls w + Suc i \<and>
         outcome (callback i) = Inl (ClientError ''ResourceNotFoundException''))) \<and>
   (loop_head os callback check_time timeout w k = Some (n, e, wk) \<longrightarrow>
    loop_condition timeout e \<longrightarrow>
    outcome (callback n) = Inl x \<longrightarrow>
      wait_till_delete os callback check_time timeout w =
        Some (if x = ClientError ''ResourceNotFoundException''
              then (Inr (),
                wk\<lparr>calls := calls wk + 1, stdout := stdout wk @ [''Successful delete''],
                  clock := clock wk + took (callback n)\<rparr>)
              else (Inl x,
                wk\<lparr>calls := calls wk + 1, clock := clock wk + took (callback n)\<rparr>)))"
proof (intro conjI impI)
  assume "wait_till_delete os callback check_time timeout w = Some (Inr (), w')"
  then have "wait_loop os callback check_time timeout 0 0 w = Some (Inr (), w')"
    by (simp add: wait_till_delete_def)
  from wait_loop_return_means_not_found [OF this]
  show "\<exists>i. calls w' = calls w + Suc i \<and>
         outcome (callback i) = Inl (ClientError ''ResourceNotFoundException'')"
    by simp
next
  assume h: "loop_head os callback check_time timeout w k = Some (n, e, wk)"
    and c: "loop_condition timeout e"
    and x: "outcome (callback n) = Inl x"
  have "wait_loop os callback check_time timeout n e wk =
        Some (if x = ClientError ''ResourceNotFoundException''
              then (Inr (),
                wk\<lparr>calls := calls wk + 1, stdout := stdout wk @ [''Successful delete''],
                  clock := clock wk + took (callback n)\<rparr>)
              else (Inl x,
                wk\<lparr>calls := calls wk + 1, clock := clock wk + took (callback n)\<rparr>))"
  proof (cases "x = ClientError ''ResourceNotFoundException''")
    case True
    with x have "outcome (callback n) = Inl (ClientError ''ResourceNotFoundException'')"
      by simp
    from loop_body_not_found [of callback n, OF this] c True show ?thesis
      by (subst wait_loop.simps) simp
  next
    case False
    from loop_body_raises [of callback n, OF x False] c False show ?thesis
      by (subst wait_loop.simps) simp
  qed
  with loop_head_wait_loop [OF h]
  show "wait_till_delete os callback check_time timeout w =
        Some (if x = ClientError ''ResourceNotFoundException''
              then (Inr (),
                wk\<lparr>calls := calls wk + 1, stdout := stdout wk @ [''Successful delete''],
                  clock := clock wk + took (callback n)\<rparr>)
              else (Inl x,
                wk\<lparr>calls := calls wk + 1, clock := clock wk + took (callback n)\<rparr>))"
    by (simp add: wait_till_delete_def)
qed

text \<open>A \<^verbatim>\<open>ClientError\<close> with another code at the first invocation is raised as it is.\<close>

theorem only_resource_not_found_ends_wait_witness:
  "wait_till_delete linux_host access_denied 5 (Some 100) fresh_world =
     Some (Inl (ClientError ''AccessDeniedException''),
       \<lparr>calls = 1, sleeps = [], stdout = [], clock = 2\<rparr>)"
  using only_resource_not_found_ends_wait
    [where os = linux_host and callback = access_denied and check_time = 5
      and timeout = "Some 100" and w = fresh_world and w' = fresh_world and k = 0 and n = 0
      and e = 0 and wk = fresh_world and x = "ClientError ''AccessDeniedException''"]
  by (simp add: access_denied_def fresh_world_def loop_condition_def)

subsection \<open>Calls one after the other\<close>

lemma world_append_fresh: "world_append w fresh_world = w"
  by (simp add: world_append_def fresh_world_def)

lemma loop_body_world_append:
  "loop_body os callback check_time n e (world_append w0 w) =
     (case loop_body os callback check_time n e w of
        Leave r w' \<Rightarrow> Leave r (world_append w0 w')
      | Again n' e' w' \<Rightarrow> Again n' e' (world_append w0 w'))"
  by (simp add: loop_body_def invoke_def sleep_def print_def world_append_def
      split: sum.splits py_exn.splits option.splits)

lemma wait_loop_world_append_Some:
  assumes "wait_loop os callback check_time timeout n e w = Some y"
  shows "wait_loop os callback check_time timeout n e (world_append w0 w) = Some (fst y, world_append w0 (snd y))"
  using assms
proof (induction rule: wait_loop.raw_induct [rotated 1, consumes 1, case_names pass])
  case (pass f os callback check_time timeout n e w y)
  show ?case
  proof (cases "loop_condition timeout e")
    case False
    with pass.hyps show ?thesis
      by (subst wait_loop.simps) auto
  next
    case True
    show ?thesis
    proof (cases "loop_body os callback check_time n e w")
      case (Leave r w')
      with True pass.hyps show ?thesis
        by (subst wait_loop.simps) (auto simp: loop_body_world_append)
    next
      case (Again n' e' w')
      with True pass.hyps have "f os callback check_time timeout n' e' w' = Some y"
        by simp
      from pass.IH [OF this] True Again show ?thesis
        by (subst wait_loop.simps) (simp add: loop_body_world_append)
    qed
  qed
qed

lemma wait_loop_world_append_only:
  assumes "wait_loop os callback check_time timeout n e wx = Some y"
  shows "\<forall>w. wx = world_append w0 w \<longrightarrow>
     (\<exists>w'. wait_loop os callback check_time timeout n e w = Some (fst y, w') \<and>
        snd y = world_append w0 w')"
  using assms
proof (induction rule: wait_loop.raw_induct [rotated 1, consumes 1, case_names pass])
  case (pass f os callback check_time timeout n e wx y)
  show ?case
  proof (intro allI impI)
    fix w
    assume wx: "wx = world_append w0 w"
    show "\<exists>w'. wait_loop os callback check_time timeout n e w = Some (fst y, w') \<and>
        snd y = world_append w0 w'"
    proof (cases "loop_condition timeout e")
      case False
      with pass.hyps wx show ?thesis
        by (subst wait_loop.simps) auto
    next
      case True
      show ?thesis
      proof (cases "loop_body os callback check_time n e w")
        case (Leave r w')
        with True pass.hyps wx show ?thesis
          by (subst wait_loop.simps) (auto simp: loop_body_world_append)
      next
        case (Again n' e' w')
        with True pass.hyps wx
        have "f os callback check_time timeout n' e' (world_append w0 w') = Some y"
          by (simp add: loop_body_world_append)
        from pass.IH [OF this] have
          "\<exists>w''. wait_loop os callback check_time timeout n' e' w' = Some (fst y, w'') \<and>
             snd y = world_append w0 w''"
          by blast
        with True Again show ?thesis
          by (subst wait_loop.simps) simp
      qed
    qed
  qed
qed

lemma wait_loop_world_append:
  "wait_loop os callback check_time timeout n e (world_append w0 w) =
     map_option (\<lambda>(r, d). (r, world_append w0 d)) (wait_loop os callback check_time timeout n e w)"
proof (cases "wait_loop os callback check_time timeout n e w")
  case (Some y)
  from wait_loop_world_append_Some [OF this, of w0] Some show ?thesis
    by (simp add: case_prod_beta)
next
  case None
  have "wait_loop os callback check_time timeout n e (world_append w0 w) = None"
  proof (cases "wait_loop os callback check_time timeout n e (world_append w0 w)")
    case (Some y)
    from wait_loop_world_append_only [OF this, of w0] have
      "\<exists>w'. wait_loop os callback check_time timeout n e w = Some (fst y, w')"
      by blast
    with None show ?thesis
      by simp
  qed simp
  with None show ?thesis
    by simp
qed

text \<open>
  Claim C6. Let a first call of \<open>wait_till_delete\<close> end, with any outcome, in the world
  \<open>w1\<close>. A second call with its own probe then behaves as it would in a fresh world: it
  has the same outcome (return, probe failure or timeout, or no outcome at all), and
  what it adds to the world is what it would add to the fresh world. Nothing of the
  first call, neither its arguments nor its outcome, enters the second.
\<close>

theorem sequential_waits_do_not_interfere:
  assumes "wait_till_delete os callback1 check_time1 timeout1 w = Some (r1, w1)"
  shows "wait_till_delete os callback2 check_time2 timeout2 w1 =
     map_option (\<lambda>(r2, d). (r2, world_append w1 d))
       (wait_till_delete os callback2 check_time2 timeout2 fresh_world)"
  using wait_loop_world_append [of os callback2 check_time2 timeout2 0 0 w1 fresh_world]
  by (simp add: wait_till_delete_def world_append_fresh)

text \<open>A wait that times out, followed by a wait that succeeds.\<close>

theorem sequential_waits_do_not_interfere_witness:
  "wait_till_delete linux_host never_deleted 5 (Some 10) fresh_world =
     Some (Inl (TimeoutError ''Forecast resource deletion timed-out.''),
       \<lparr>calls = 2, sleeps = [5, 5], stdout = [], clock = 14\<rparr>) \<and>
   wait_till_delete linux_host deleted_on_third 5 (Some 100) fresh_world =
     Some (Inr (),
       \<lparr>calls = 3, sleeps = [5, 5], stdout = [''Successful delete''], clock = 16\<rparr>) \<and>
   wait_till_delete linux_host deleted_on_third 5 (Some 100)
       \<lparr>calls = 2, sleeps = [5, 5], stdout = [], clock = 14\<rparr> =
     Some (Inr (),
       \<lparr>calls = 5, sleeps = [5, 5, 5, 5], stdout = [''Successful delete''], clock = 30\<rparr>)"
proof -
  have first: "wait_till_delete linux_host never_deleted 5 (Some 10) fresh_world =
     Some (Inl (TimeoutError ''Forecast resource deletion timed-out.''),
       \<lparr>calls = 2, sleeps = [5, 5], stdout = [], clock = 14\<rparr>)"
    by (simp add: wait_till_delete_def wait_loop.simps loop_condition_def loop_body_def
        invoke_def sleep_def sleep_error_def never_deleted_def fresh_world_def)
  have alone: "wait_till_delete linux_host deleted_on_third 5 (Some 100) fresh_world =
     Some (Inr (),
       \<lparr>calls = 3, sleeps = [5, 5], stdout = [''Successful delete''], clock = 16\<rparr>)"
    by (simp add: wait_till_delete_def wait_loop.simps loop_condition_def loop_body_def
        invoke_def sleep_def sleep_error_def print_def deleted_on_third_def fresh_world_def)
  from sequential_waits_do_not_interfere [OF first, of deleted_on_third 5 "Some 100"]
  show ?thesis
    by (simp add: first alone world_append_def)
qed

subsection \<open>What the timeout counts\<close>






section \<open>Properties of the training-status loop\<close>

lemma status_loop_reads:
  assumes "st0 \<noteq> ''Completed''" and "st0 \<noteq> ''Failed''"
    and "\<forall>i<d. outcome (describe (n + i)) = Inr (st (n + i)) \<and>
           st (n + i) \<noteq> ''Completed'' \<and> st (n + i) \<noteq> ''Failed''"
    and "outcome (describe (n + d)) = Inr (st (n + d))"
    and "st (n + d) = ''Completed'' \<or> st (n + d) = ''Failed''"
  shows "status_loop os describe n st0 w =
     Some (Inr (st (n + d)),
       w\<lparr>calls := calls w + Suc d, sleeps := sleeps w @ replicate (Suc d) 60,
         stdout := stdout w @ map st [n..<n + Suc d],
         clock := clock w + 60 * int (Suc d) + (\<Sum>i<Suc d. took (describe (n + i)))\<rparr>)"
  using assms
proof (induction d arbitrary: n st0 w)
  case 0
  let ?w = "print (st n)
      (w\<lparr>sleeps := sleeps w @ [60], clock := clock w + 60,
         calls := calls w + 1, clock := clock w + 60 + took (describe n)\<rparr>)"
  have "status_loop os describe (Suc n) (st n) ?w = Some (Inr (st n), ?w)"
    using "0.prems"(5) by (subst status_loop.simps) auto
  with "0.prems"(1,2,4) show ?case
    by (subst status_loop.simps) (simp add: sleep_def sleep_error_def invoke_def print_def)
next
  case (Suc d)
  let ?w = "print (st n)
      (w\<lparr>sleeps := sleeps w @ [60], clock := clock w + 60,
         calls := calls w + 1, clock := clock w + 60 + took (describe n)\<rparr>)"
  from Suc.prems(3) have now: "outcome (describe n) = Inr (st n)"
    "st n \<noteq> ''Completed''" "st n \<noteq> ''Failed''"
    by (metis add.right_neutral zero_less_Suc)+
  have a: "\<forall>i<d. outcome (describe (Suc n + i)) = Inr (st (Suc n + i)) \<and>
           st (Suc n + i) \<noteq> ''Completed'' \<and> st (Suc n + i) \<noteq> ''Failed''"
    using Suc.prems(3) by (metis Suc_less_eq add_Suc_shift)
  have b: "outcome (describe (Suc n + d)) = Inr (st (Suc n + d))"
    "st (Suc n + d) = ''Completed'' \<or> st (Suc n + d) = ''Failed''"
    using Suc.prems(4,5) by simp_all
  have s: "(\<Sum>i<Suc (Suc d). took (describe (n + i))) =
      took (describe n) + (\<Sum>i<Suc d. took (describe (Suc n + i)))"
    by (subst sum.lessThan_Suc_shift) simp
  have l: "[n..<n + Suc (Suc d)] = n # [Suc n..<Suc n + Suc d]"
    by (simp add: upt_conv_Cons)
  have step: "status_loop os describe n st0 w = status_loop os describe (Suc n) (st n) ?w"
    using Suc.prems(1,2) now(1) by (subst status_loop.simps) (simp add: sleep_def sleep_error_def invoke_def)
  show ?case
    apply (simp only: step Suc.IH [OF now(2,3) a b] l s)
    apply (simp add: print_def replicate_append_same del: sum.lessThan_Suc upt_Suc)
    done
qed

lemma status_loop_result_terminal:
  assumes "status_loop os describe n status w = Some y"
  shows "\<forall>s. fst y = Inr s \<longrightarrow> s = ''Completed'' \<or> s = ''Failed''"
  using assms
proof (induction rule: status_loop.raw_induct [rotated 1, consumes 1, case_names pass])
  case (pass f os describe n status w y)
  then show ?case
    by (auto simp: sleep_def sleep_error_def invoke_def split: if_splits sum.splits)
qed

lemma status_loop_forever:
  assumes "status_loop os describe n status w = Some y"
  shows "\<not> (status \<noteq> ''Completed'' \<and> status \<noteq> ''Failed'' \<and>
     (\<forall>i. \<exists>s. outcome (describe (n + i)) = Inr s \<and> s \<noteq> ''Completed'' \<and> s \<noteq> ''Failed''))"
  using assms
proof (induction rule: status_loop.raw_induct [rotated 1, consumes 1, case_names pass])
  case (pass f os describe n status w y)
  show ?case
  proof
    assume h: "status \<noteq> ''Completed'' \<and> status \<noteq> ''Failed'' \<and>
     (\<forall>i. \<exists>s. outcome (describe (n + i)) = Inr s \<and> s \<noteq> ''Completed'' \<and> s \<noteq> ''Failed'')"
    then obtain s where s: "outcome (describe n) = Inr s" "s \<noteq> ''Completed''" "s \<noteq> ''Failed''"
      by (metis add.right_neutral)
    have rest: "\<forall>i. \<exists>s. outcome (describe (Suc n + i)) = Inr s \<and> s \<noteq> ''Completed'' \<and> s \<noteq> ''Failed''"
      using h by (metis add_Suc_shift)
    from pass.hyps h s(1) obtain w' where "f os describe (Suc n) s w' = Some y"
      by (auto simp: sleep_def sleep_error_def invoke_def)
    from pass.IH [OF this] s rest show False
      by blast
  qed
qed

text \<open>
  Claim C7. Let the status reads yield \<open>st 0\<close>, \<open>st 1\<close>, ... and let \<open>st k\<close> be the first that
  is \<^verbatim>\<open>"Completed"\<close> or \<^verbatim>\<open>"Failed"\<close>. Then the loop ends with that status after exactly
  \<open>k + 1\<close> reads and \<open>k\<close> sleeps of 60 seconds, each read printed: nothing is slept or
  read after the terminal status. A status the loop ends with is always one of the
  two. The loop has no bound of its own: when no read ever yields one of the two
  statuses, it does not end.
\<close>

theorem training_poll_stops_at_terminal_status:
  "((\<forall>i\<le>k. outcome (describe i) = Inr (st i)) \<and>
    (\<forall>i<k. st i \<noteq> ''Completed'' \<and> st i \<noteq> ''Failed'') \<and>
    (st k = ''Completed'' \<or> st k = ''Failed'') \<longrightarrow>
      wait_for_training os describe w =
        Some (Inr (st k),
          w\<lparr>calls := calls w + Suc k, sleeps := sleeps w @ replicate k 60,
            stdout := stdout w @ map st [0..<Suc k],
            clock := clock w + 60 * int k + (\<Sum>i<Suc k. took (describe i))\<rparr>)) \<and>
   (wait_for_training os describe w = Some (Inr s, w') \<longrightarrow> s = ''Completed'' \<or> s = ''Failed'') \<and>
   ((\<forall>i. \<exists>s. outcome (describe i) = Inr s \<and> s \<noteq> ''Completed'' \<and> s \<noteq> ''Failed'') \<longrightarrow>
      wait_for_training os describe w = None)"
proof (intro conjI impI)
  assume h: "(\<forall>i\<le>k. outcome (describe i) = Inr (st i)) \<and>
    (\<forall>i<k. st i \<noteq> ''Completed'' \<and> st i \<noteq> ''Failed'') \<and>
    (st k = ''Completed'' \<or> st k = ''Failed'')"
  let ?w1 = "print (st 0) (w\<lparr>calls := calls w + 1, clock := clock w + took (describe 0)\<rparr>)"
  have first: "wait_for_training os describe w = status_loop os describe 1 (st 0) ?w1"
    using h by (simp add: wait_for_training_def invoke_def)
  show "wait_for_training os describe w =
        Some (Inr (st k),
          w\<lparr>calls := calls w + Suc k, sleeps := sleeps w @ replicate k 60,
            stdout := stdout w @ map st [0..<Suc k],
            clock := clock w + 60 * int k + (\<Sum>i<Suc k. took (describe i))\<rparr>)"
  proof (cases k)
    case 0
    with h have "status_loop os describe 1 (st 0) ?w1 = Some (Inr (st 0), ?w1)"
      by (subst status_loop.simps) auto
    with first 0 show ?thesis
      by (simp add: print_def)
  next
    case (Suc d)
    have n0: "st 0 \<noteq> ''Completed''" "st 0 \<noteq> ''Failed''"
      using h Suc by auto
    have a: "\<forall>i<d. outcome (describe (1 + i)) = Inr (st (1 + i)) \<and>
           st (1 + i) \<noteq> ''Completed'' \<and> st (1 + i) \<noteq> ''Failed''"
      using h Suc by auto
    have b: "outcome (describe (1 + d)) = Inr (st (1 + d))"
      "st (1 + d) = ''Completed'' \<or> st (1 + d) = ''Failed''"
      using h Suc by auto
    have s: "(\<Sum>i<Suc (Suc d). took (describe i)) =
        took (describe 0) + (\<Sum>i<Suc d. took (describe (1 + i)))"
      by (subst sum.lessThan_Suc_shift) simp
    have l: "[0..<Suc (Suc d)] = 0 # [1..<1 + Suc d]"
      by (simp add: upt_conv_Cons del: upt_Suc)
    show ?thesis
      apply (simp only: first Suc status_loop_reads [OF n0 a b] l s)
      apply (simp add: print_def del: sum.lessThan_Suc upt_Suc replicate.simps)
      done
  qed
next
  assume r: "wait_for_training os describe w = Some (Inr s, w')"
  then obtain n status w1 where "status_loop os describe n status w1 = Some (Inr s, w')"
    by (auto simp: wait_for_training_def invoke_def split: sum.splits)
  from status_loop_result_terminal [OF this] show "s = ''Completed'' \<or> s = ''Failed''"
    by simp
next
  assume h: "\<forall>i. \<exists>s. outcome (describe i) = Inr s \<and> s \<noteq> ''Completed'' \<and> s \<noteq> ''Failed''"
  then obtain s0 where s0: "outcome (describe 0) = Inr s0" "s0 \<noteq> ''Completed''" "s0 \<noteq> ''Failed''"
    by blast
  let ?w1 = "print s0 (w\<lparr>calls := calls w + 1, clock := clock w + took (describe 0)\<rparr>)"
  have first: "wait_for_training os describe w = status_loop os describe 1 s0 ?w1"
    using s0 by (simp add: wait_for_training_def invoke_def)
  have rest: "\<forall>i. \<exists>s. outcome (describe (1 + i)) = Inr s \<and> s \<noteq> ''Completed'' \<and> s \<noteq> ''Failed''"
    using h by blast
  have "status_loop os describe 1 s0 ?w1 = None"
  proof (cases "status_loop os describe 1 s0 ?w1")
    case (Some y)
    from status_loop_forever [OF this] s0 rest show ?thesis
      by blast
  qed simp
  with first show "wait_for_training os describe w = None"
    by simp
qed

text \<open>
  A job that completes at the third read; a job that stays in progress and a job that
  ends up stopped keep the loop running.
\<close>

theorem training_poll_stops_at_terminal_status_witness:
  "wait_for_training linux_host job_completes fresh_world =
     Some (Inr ''Completed'',
       \<lparr>calls = 3, sleeps = [60, 60],
        stdout = [''InProgress'', ''InProgress'', ''Completed''], clock = 123\<rparr>) \<and>
   wait_for_training linux_host job_in_progress fresh_world = None \<and>
   wait_for_training linux_host job_stopped fresh_world = None"
proof -
  have a: "\<forall>i. \<exists>s. outcome (job_in_progress i) = Inr s \<and> s \<noteq> ''Completed'' \<and> s \<noteq> ''Failed''"
    by (simp add: job_in_progress_def)
  have b: "\<forall>i. \<exists>s. outcome (job_stopped i) = Inr s \<and> s \<noteq> ''Completed'' \<and> s \<noteq> ''Failed''"
    by (simp add: job_stopped_def)
  have c: "(\<forall>i\<le>2. outcome (job_completes i) =
        Inr ((\<lambda>i. if i < 2 then ''InProgress'' else ''Completed'') i)) \<and>
      (\<forall>i<2. (\<lambda>i. if i < 2 then ''InProgress'' else ''Completed'') i \<noteq> ''Completed'' \<and>
        (\<lambda>i. if i < 2 then ''InProgress'' else ''Completed'') i \<noteq> ''Failed'') \<and>
      ((\<lambda>i. if i < (2::nat) then ''InProgress'' else ''Completed'') 2 = ''Completed'' \<or>
       (\<lambda>i. if i < (2::nat) then ''InProgress'' else ''Completed'') 2 = ''Failed'')"
    by (simp add: job_completes_def)
  have m: "map (\<lambda>i. if i < 2 then ''InProgress'' else ''Completed'') [0..<Suc 2] =
      [''InProgress'', ''InProgress'', ''Completed'']"
    by (simp add: eval_nat_numeral)
  have t: "(\<Sum>i<Suc 2. took (job_completes i)) = 3"
    by (simp add: job_completes_def eval_nat_numeral)
  have r: "replicate 2 (60::int) = [60, 60]"
    by (simp add: eval_nat_numeral)
  from training_poll_stops_at_terminal_status
      [of 2 job_completes "\<lambda>i. if i < 2 then ''InProgress'' else ''Completed''" linux_host fresh_world
        "''Completed''" fresh_world, THEN conjunct1, THEN mp, OF c]
  have "wait_for_training linux_host job_completes fresh_world =
     Some (Inr ((\<lambda>i. if i < (2::nat) then ''InProgress'' else ''Completed'') 2),
       fresh_world\<lparr>calls := calls fresh_world + Suc 2,
         sleeps := sleeps fresh_world @ replicate 2 60,
         stdout := stdout fresh_world @
           map (\<lambda>i. if i < 2 then ''InProgress'' else ''Completed'') [0..<Suc 2],
         clock := clock fresh_world + 60 * int 2 + (\<Sum>i<Suc 2. took (job_completes i))\<rparr>)"
    .
  then have "wait_for_training linux_host job_completes fresh_world =
     Some (Inr ''Completed'',
       \<lparr>calls = 3, sleeps = [60, 60],
        stdout = [''InProgress'', ''InProgress'', ''Completed''], clock = 123\<rparr>)"
    by (simp only: m t r) (simp add: fresh_world_def)
  moreover have "wait_for_training linux_host job_in_progress fresh_world = None"
    using training_poll_stops_at_terminal_status
      [of 0 job_in_progress "\<lambda>i. ''InProgress''" linux_host fresh_world "''Completed''" fresh_world,
        THEN conjunct2, THEN conjunct2, THEN mp, OF a] .
  moreover have "wait_for_training linux_host job_stopped fresh_world = None"
    using training_poll_stops_at_terminal_status
      [of 0 job_stopped "\<lambda>i. ''Stopped''" linux_host fresh_world "''Completed''" fresh_world,
        THEN conjunct2, THEN conjunct2, THEN mp, OF b] .
  ultimately show ?thesis
    by simp
qed

end
